theory Spec2Isabelle
  imports Main "HOL-Library.Sublist"
begin

section \<open>Text primitives of the host language\<close>

text \<open>
  The program under study is \<^verbatim>\<open>rs-coder/agent_loop.py\<close>. Its texts are Python
  \<^verbatim>\<open>str\<close> values; here a text is a \<^typ>\<open>string\<close> whose characters are the code
  points below 256. The character classes below are the ones Python uses on that range:
  \<^verbatim>\<open>str.isspace\<close> (also the class \<^verbatim>\<open>\s\<close> of \<^verbatim>\<open>re\<close>), \<^verbatim>\<open>\d\<close>, \<^verbatim>\<open>\w\<close> and
  \<^verbatim>\<open>str.lower\<close>.
\<close>

definition is_space :: "char \<Rightarrow> bool" where
  "is_space c =
     (let n = (of_char c :: nat)
      in (9 \<le> n \<and> n \<le> 13) \<or> (28 \<le> n \<and> n \<le> 32) \<or> n = 133 \<or> n = 160)"

definition is_digit :: "char \<Rightarrow> bool" where
  "is_digit c = (let n = (of_char c :: nat) in 48 \<le> n \<and> n \<le> 57)"

definition is_word :: "char \<Rightarrow> bool" where
  "is_word c =
     (let n = (of_char c :: nat)
      in (48 \<le> n \<and> n \<le> 57) \<or> (65 \<le> n \<and> n \<le> 90) \<or> n = 95 \<or> (97 \<le> n \<and> n \<le> 122)
         \<or> n = 170 \<or> n = 178 \<or> n = 179 \<or> n = 181 \<or> n = 185 \<or> n = 186
         \<or> (188 \<le> n \<and> n \<le> 190) \<or> (192 \<le> n \<and> n \<le> 214) \<or> (216 \<le> n \<and> n \<le> 246)
         \<or> 248 \<le> n)"

definition lower_char :: "char \<Rightarrow> char" where
  "lower_char c =
     (let n = (of_char c :: nat)
      in if (65 \<le> n \<and> n \<le> 90) \<or> (192 \<le> n \<and> n \<le> 222 \<and> n \<noteq> 215)
         then char_of (n + 32) else c)"

definition lower :: "string \<Rightarrow> string" where
  "lower s = map lower_char s"

definition lstrip :: "string \<Rightarrow> string" where
  "lstrip s = dropWhile is_space s"

definition rstrip :: "string \<Rightarrow> string" where
  "rstrip s = rev (dropWhile is_space (rev s))"

definition strip :: "string \<Rightarrow> string" where
  "strip s = rstrip (lstrip s)"

text \<open>\<^verbatim>\<open>p in s\<close>: the text \<open>p\<close> occurs in \<open>s\<close> as a contiguous run.\<close>

primrec contains :: "string \<Rightarrow> string \<Rightarrow> bool" where
  "contains p [] = (p = [])"
| "contains p (c # cs) = (prefix p (c # cs) \<or> contains p cs)"

text \<open>\<^verbatim>\<open>s.split("\n")\<close>: always at least one piece; the pieces hold no newline.\<close>

fun split_nl :: "string \<Rightarrow> string list" where
  "split_nl [] = [[]]"
| "split_nl (c # cs) =
     (if c = CHR 0x0A then [] # split_nl cs
      else (case split_nl cs of [] \<Rightarrow> [[c]] | l # ls \<Rightarrow> (c # l) # ls))"

text \<open>\<^verbatim>\<open>any(pattern in s for pattern in ps)\<close>\<close>

definition any_in :: "string list \<Rightarrow> string \<Rightarrow> bool" where
  "any_in ps s = list_ex (\<lambda>p. contains p s) ps"

section \<open>Diagnostic classifier\<close>

text \<open>The five pattern tables of \<^verbatim>\<open>parse_and_categorize_errors\<close>, in source order.\<close>

definition informational_patterns :: "string list" where
  "informational_patterns =
     [''safety analysis results'', ''safety properties: verified'',
      ''estimated wcet'', ''estimated stack'', ''estimated state'',
      ''max loop depth'', ''max stack depth'', ''execution rate'',
      ''platform:'', ''toolchain:'', ''compilation complete'', ''build successful'',
      ''phase:'', ''checking:'', ''processing:'']"

definition syntax_patterns :: "string list" where
  "syntax_patterns =
     [''error:'', ''syntax error'', ''parse error'', ''expected'', ''missing'',
      ''unexpected token'', ''invalid syntax'', ''malformed'']"

definition type_patterns :: "string list" where
  "type_patterns =
     [''type error'', ''undefined'', ''undeclared'', ''incompatible types'',
      ''type mismatch'', ''cannot convert'', ''semantic error'', ''analysis error'']"

definition linker_patterns :: "string list" where
  "linker_patterns =
     [''undefined reference'', ''ld:'', ''cannot find -l'', ''unresolved symbol'',
      ''linker error'', ''link error'']"

definition warning_patterns :: "string list" where
  "warning_patterns = [''warning:'', ''deprecated'', ''unused'']"

definition failure_patterns :: "string list" where
  "failure_patterns = [''failed'', ''error'', ''exception'', ''abort'', ''fatal'']"

text \<open>
  The five result lists of \<^verbatim>\<open>parse_and_categorize_errors\<close>, returned in this order:
  \<^verbatim>\<open>syntax_errors, type_errors, linker_errors, warnings, other_messages\<close>.
\<close>

record buckets =
  syntax_errors :: "string list"
  type_errors :: "string list"
  linker_errors :: "string list"
  warnings :: "string list"
  other_messages :: "string list"

definition no_buckets :: buckets where
  "no_buckets = \<lparr>syntax_errors = [], type_errors = [], linker_errors = [],
                  warnings = [], other_messages = []\<rparr>"

text \<open>One pass of the body of the \<^verbatim>\<open>for line in lines\<close> loop.\<close>

definition categorize_line :: "buckets \<Rightarrow> string \<Rightarrow> buckets" where
  "categorize_line b line =
     (if strip line = [] then b
      else let line_lower = lower line in
        if any_in informational_patterns line_lower
        then b\<lparr>other_messages := other_messages b @ [line]\<rparr>
        else if any_in syntax_patterns line_lower
        then b\<lparr>syntax_errors := syntax_errors b @ [line]\<rparr>
        else if any_in type_patterns line_lower
        then b\<lparr>type_errors := type_errors b @ [line]\<rparr>
        else if any_in linker_patterns line_lower
        then b\<lparr>linker_errors := linker_errors b @ [line]\<rparr>
        else if any_in warning_patterns line_lower
        then b\<lparr>warnings := warnings b @ [line]\<rparr>
        else if any_in failure_patterns line_lower
                \<and> \<not> contains ''cannot open file'' line_lower
        then b\<lparr>other_messages := other_messages b @ [line]\<rparr>
        else b\<lparr>other_messages := other_messages b @ [line]\<rparr>)"

definition parse_and_categorize_errors :: "string \<Rightarrow> buckets" where
  "parse_and_categorize_errors raw_output =
     foldl categorize_line no_buckets (split_nl raw_output)"

text \<open>
  The taxonomy in the words of the specification: six categories tried in order,
  the first whose markers occur in the lower-cased line wins, anything else is Other.
\<close>

datatype category = Informational | Syntax | TypeOrSemantic | Linker | Warning | Other

definition spec_category :: "string \<Rightarrow> category" where
  "spec_category line =
     (let l = lower line in
      if any_in informational_patterns l then Informational
      else if any_in syntax_patterns l then Syntax
      else if any_in type_patterns l then TypeOrSemantic
      else if any_in linker_patterns l then Linker
      else if any_in warning_patterns l then Warning
      else Other)"

definition non_blank_lines :: "string \<Rightarrow> string list" where
  "non_blank_lines raw_output = filter (\<lambda>line. strip line \<noteq> []) (split_nl raw_output)"

subsection \<open>The category-grouped part of the rich report\<close>

text \<open>
  \<^verbatim>\<open>format_error_feedback_for_history\<close> with \<^verbatim>\<open>simple_mode=False\<close> emits, for each of
  the four lists \<^verbatim>\<open>syntax_errors\<close>, \<^verbatim>\<open>type_errors\<close>, \<^verbatim>\<open>linker_errors\<close> and
  \<^verbatim>\<open>warnings\<close> that is not empty, a heading with the length of the list, the numbered
  entries \<^verbatim>\<open>enumerate(xs[:10], 1)\<close> and, when the list is longer than 10, the number of
  entries left out. A section is kept here as that data; the heading is its wording
  without the leading pictograph. \<^verbatim>\<open>other_messages\<close> has no section.
\<close>

record report_section =
  heading :: string
  total :: nat
  entries :: "(nat \<times> string) list"
  omitted :: "nat option"

definition section_of :: "string \<Rightarrow> string list \<Rightarrow> report_section list" where
  "section_of h xs =
     (if xs = [] then []
      else [\<lparr>heading = h, total = length xs, entries = enumerate 1 (take 10 xs),
              omitted = (if length xs > 10 then Some (length xs - 10) else None)\<rparr>])"

definition rich_sections :: "string \<Rightarrow> report_section list" where
  "rich_sections raw_output =
     (let b = parse_and_categorize_errors raw_output in
        section_of ''SYNTAX ERRORS'' (syntax_errors b)
      @ section_of ''TYPE/DECLARATION ERRORS'' (type_errors b)
      @ section_of ''LINKER ERRORS'' (linker_errors b)
      @ section_of ''WARNINGS'' (warnings b))"

section \<open>Regular expressions with backtracking\<close>

text \<open>
  The program uses three patterns of Python's \<^verbatim>\<open>re\<close> module. A pattern is kept as a
  term of the type below and run by a matcher that lists every way the pattern can match
  at the start of a text, in the order in which a backtracking matcher tries them: the
  first entry is the match \<^verbatim>\<open>re\<close> reports. A match state is the text still to be read
  together with the groups captured so far (the latest capture of a group first).
\<close>

datatype regex =
    Class "char \<Rightarrow> bool"   \<comment> \<open>one character of a class\<close>
  | Eps                      \<comment> \<open>the empty pattern\<close>
  | Seq regex regex          \<comment> \<open>concatenation\<close>
  | Star regex               \<comment> \<open>greedy \<^verbatim>\<open>r*\<close>\<close>
  | Lazy regex               \<comment> \<open>lazy \<^verbatim>\<open>r*?\<close>\<close>
  | Group nat regex          \<comment> \<open>capturing group number \<open>n\<close>\<close>
  | EndAnchor                \<comment> \<open>\<^verbatim>\<open>$\<close>: at the end, or before a final newline\<close>

type_synonym captures = "(nat \<times> string) list"
type_synonym mstate = "string \<times> captures"

text \<open>
  Repetition of a matcher \<open>f\<close>, greedy (\<open>star\<close>: one more round is tried before
  stopping) and lazy (\<open>lazy\<close>: stopping is tried first). The first argument bounds the
  number of rounds; \<open>matches\<close> passes the length of the text left, and a round that
  reads nothing is not repeated (as in \<^verbatim>\<open>re\<close>), so the bound is never the reason a
  repetition stops.
\<close>

primrec star :: "nat \<Rightarrow> (mstate \<Rightarrow> mstate list) \<Rightarrow> mstate \<Rightarrow> mstate list" where
  "star 0 f st = [st]"
| "star (Suc k) f st =
     concat (map (\<lambda>st'. if length (fst st') < length (fst st) then star k f st' else [])
               (f st))
     @ [st]"

primrec lazy :: "nat \<Rightarrow> (mstate \<Rightarrow> mstate list) \<Rightarrow> mstate \<Rightarrow> mstate list" where
  "lazy 0 f st = [st]"
| "lazy (Suc k) f st =
     st # concat (map (\<lambda>st'. if length (fst st') < length (fst st) then lazy k f st' else [])
                    (f st))"

primrec matches :: "regex \<Rightarrow> mstate \<Rightarrow> mstate list" where
  "matches (Class p) st =
     (case fst st of [] \<Rightarrow> [] | x # xs \<Rightarrow> if p x then [(xs, snd st)] else [])"
| "matches Eps st = [st]"
| "matches (Seq a b) st = concat (map (matches b) (matches a st))"
| "matches (Star r) st = star (length (fst st)) (matches r) st"
| "matches (Lazy r) st = lazy (length (fst st)) (matches r) st"
| "matches (Group n r) st =
     map (\<lambda>st'. (fst st', (n, take (length (fst st) - length (fst st')) (fst st)) # snd st'))
       (matches r st)"
| "matches EndAnchor st = (if fst st = [] \<or> fst st = [CHR 0x0A] then [st] else [])"

text \<open>Pattern building blocks: a literal text, \<^verbatim>\<open>r+\<close>, and the character classes.\<close>

definition lit :: "string \<Rightarrow> regex" where
  "lit s = foldr (\<lambda>c r. Seq (Class (\<lambda>x. x = c)) r) s Eps"

definition plus :: "regex \<Rightarrow> regex" where
  "plus r = Seq r (Star r)"

definition dot :: regex where  \<comment> \<open>\<^verbatim>\<open>.\<close> without \<^verbatim>\<open>re.DOTALL\<close>\<close>
  "dot = Class (\<lambda>c. c \<noteq> CHR 0x0A)"

definition dot_all :: regex where  \<comment> \<open>\<^verbatim>\<open>.\<close> under \<^verbatim>\<open>re.DOTALL\<close>\<close>
  "dot_all = Class (\<lambda>c. True)"

text \<open>
  \<^verbatim>\<open>pattern.match(s)\<close> tries the pattern at the start of \<open>s\<close> only;
  \<^verbatim>\<open>re.search(pattern, s)\<close> tries every start from left to right. Both give the
  captures of the first match, or nothing.
\<close>

definition re_match :: "regex \<Rightarrow> string \<Rightarrow> captures option" where
  "re_match r s = (case matches r (s, []) of [] \<Rightarrow> None | st # _ \<Rightarrow> Some (snd st))"

fun re_search :: "regex \<Rightarrow> string \<Rightarrow> captures option" where
  "re_search r [] = re_match r []"
| "re_search r (c # cs) =
     (case re_match r (c # cs) of Some m \<Rightarrow> Some m | None \<Rightarrow> re_search r cs)"

text \<open>\<^verbatim>\<open>match.group(n)\<close> for a group that took part in the match.\<close>

definition group :: "captures \<Rightarrow> nat \<Rightarrow> string" where
  "group m n = (case map_of m n of Some s \<Rightarrow> s | None \<Rightarrow> [])"

section \<open>More text primitives\<close>

text \<open>\<^verbatim>\<open>s.find(p)\<close>: the index of the first occurrence of \<open>p\<close> in \<open>s\<close>, if any.\<close>

fun str_find :: "string \<Rightarrow> string \<Rightarrow> nat option" where
  "str_find p [] = (if p = [] then Some 0 else None)"
| "str_find p (c # cs) =
     (if prefix p (c # cs) then Some 0 else map_option Suc (str_find p cs))"

text \<open>
  \<^verbatim>\<open>s.split(sep, 1)[1]\<close>: what follows the first occurrence of \<open>sep\<close>. Python raises
  \<^verbatim>\<open>IndexError\<close> when \<open>sep\<close> does not occur; the only call is guarded by
  \<^verbatim>\<open>line.strip().startswith(sep)\<close>, under which \<open>sep\<close> occurs.
\<close>

definition after_first :: "string \<Rightarrow> string \<Rightarrow> string" where
  "after_first sep s =
     (case str_find sep s of Some i \<Rightarrow> drop (i + length sep) s | None \<Rightarrow> [])"

text \<open>\<^verbatim>\<open>sep.join(xs)\<close>\<close>

fun join :: "string \<Rightarrow> string list \<Rightarrow> string" where
  "join sep [] = []"
| "join sep [x] = x"
| "join sep (x # y # ys) = x @ sep @ join sep (y # ys)"

text \<open>\<^verbatim>\<open>int(s)\<close> for a run of decimal digits, and \<^verbatim>\<open>str(n)\<close> for an integer.\<close>

definition int_of_digits :: "string \<Rightarrow> int" where
  "int_of_digits s = foldl (\<lambda>a c. 10 * a + (int (of_char c) - 48)) 0 s"

fun str_nat :: "nat \<Rightarrow> string" where
  "str_nat n =
     (if n < 10 then [char_of (48 + n)]
      else str_nat (n div 10) @ [char_of (48 + n mod 10)])"

definition str_int :: "int \<Rightarrow> string" where
  "str_int i = (if i < 0 then ''-'' @ str_nat (nat (- i)) else str_nat (nat i))"

section \<open>Candidate extraction\<close>

text \<open>
  The patterns \<^verbatim>\<open>```reflexscript\s*\n(.*?)```\<close> and \<^verbatim>\<open>```\s*\n(.*?)```\<close>, both used
  with \<^verbatim>\<open>re.DOTALL\<close>.
\<close>

definition tagged_fence :: regex where
  "tagged_fence =
     Seq (lit ''```reflexscript'') (Seq (Star (Class is_space)) (Seq (lit [CHR 0x0A])
       (Seq (Group 1 (Lazy dot_all)) (lit ''```''))))"

definition generic_fence :: regex where
  "generic_fence =
     Seq (lit ''```'') (Seq (Star (Class is_space)) (Seq (lit [CHR 0x0A])
       (Seq (Group 1 (Lazy dot_all)) (lit ''```''))))"

text \<open>
  The brace-matching loop \<^verbatim>\<open>for i, char in enumerate(response[start:], start)\<close>:
  \<open>i\<close> is the index of the next character, \<open>brace_count\<close> and \<open>in_code\<close> are the
  loop variables, and the result is the value of \<^verbatim>\<open>end\<close> after the loop (unchanged when
  the loop runs to its end without \<^verbatim>\<open>break\<close>).
\<close>

fun brace_scan :: "string \<Rightarrow> nat \<Rightarrow> int \<Rightarrow> bool \<Rightarrow> nat \<Rightarrow> nat" where
  "brace_scan [] i brace_count in_code end = end"
| "brace_scan (ch # rest) i brace_count in_code end =
     (if ch = CHR ''{'' then brace_scan rest (i + 1) (brace_count + 1) True end
      else if ch = CHR ''}'' then
        (if in_code \<and> brace_count - 1 = 0 then i + 1
         else brace_scan rest (i + 1) (brace_count - 1) in_code end)
      else brace_scan rest (i + 1) brace_count in_code end)"

text \<open>The three strategies of \<^verbatim>\<open>extract_code_from_response\<close>, each on its own.\<close>

definition tagged_block :: "string \<Rightarrow> string option" where
  "tagged_block response =
     (case re_search tagged_fence response of
        Some m \<Rightarrow> Some (strip (group m 1))
      | None \<Rightarrow> None)"

definition generic_block :: "string \<Rightarrow> string option" where
  "generic_block response =
     (case re_search generic_fence response of
        Some m \<Rightarrow> (let code = strip (group m 1)
                   in if contains ''reflex '' code then Some code else None)
      | None \<Rightarrow> None)"

definition keyword_span :: "string \<Rightarrow> string option" where
  "keyword_span response =
     (if contains ''reflex '' response then
        (case str_find ''reflex '' response of
           None \<Rightarrow> None
         | Some start \<Rightarrow>
             (let end = brace_scan (drop start response) start 0 False start
              in if end > start then Some (strip (take (end - start) (drop start response)))
                 else None))
      else None)"

text \<open>\<^verbatim>\<open>None\<close> in the result is Python's \<^verbatim>\<open>None\<close>.\<close>

definition extract_code_from_response :: "string \<Rightarrow> string option" where
  "extract_code_from_response response =
     (if response = [] then None
      else case tagged_block response of
        Some code \<Rightarrow> Some code
      | None \<Rightarrow>
          (case generic_block response of
             Some code \<Rightarrow> Some code
           | None \<Rightarrow> keyword_span response))"

section \<open>Verifier invocation\<close>

text \<open>
  What \<^verbatim>\<open>subprocess.run\<close> can do in \<^verbatim>\<open>run_reflexc\<close>: complete with a return code and
  the two output streams, or raise one of the exceptions the function handles.
\<close>

datatype proc_result =
    Completed int string string   \<comment> \<open>returncode, stdout, stderr\<close>
  | TimeoutExpired
  | FileNotFoundError
  | OtherException string         \<comment> \<open>the text of the exception\<close>

definition run_reflexc :: "string \<Rightarrow> proc_result \<Rightarrow> bool \<times> string" where
  "run_reflexc reflexc_path result =
     (case result of
        Completed returncode stdout stderr \<Rightarrow> (returncode = 0, strip (stdout @ stderr))
      | TimeoutExpired \<Rightarrow> (False, ''Error: reflexc timed out'')
      | FileNotFoundError \<Rightarrow> (False, ''Error: reflexc not found at '' @ reflexc_path)
      | OtherException e \<Rightarrow> (False, ''Error running reflexc: '' @ e))"

section \<open>Diagnostic parser\<close>

text \<open>The dictionaries built by \<^verbatim>\<open>parse_errors\<close>.\<close>

record diagnostic =
  file_name :: string   \<comment> \<open>the key \<^verbatim>\<open>file\<close>\<close>
  line :: int
  column :: int
  type :: string
  message :: string
  suggestion :: "string option"

text \<open>
  The pattern \<^verbatim>\<open>^(.+):(\d+):(\d+):\s*(\w+(?:\s+\w+)*):\s*(.+)$\<close>. It is used with
  \<^verbatim>\<open>match\<close> only, which tries it at the start of the line, so the leading \<^verbatim>\<open>^\<close> adds
  nothing.
\<close>

definition error_pattern :: regex where
  "error_pattern =
     Seq (Group 1 (plus dot)) (Seq (lit '':'')
    (Seq (Group 2 (plus (Class is_digit))) (Seq (lit '':'')
    (Seq (Group 3 (plus (Class is_digit))) (Seq (lit '':'')
    (Seq (Star (Class is_space))
    (Seq (Group 4 (Seq (plus (Class is_word))
                       (Star (Seq (plus (Class is_space)) (plus (Class is_word))))))
    (Seq (lit '':'')
    (Seq (Star (Class is_space))
    (Seq (Group 5 (plus dot)) EndAnchor))))))))))"

text \<open>
  One pass of the body of \<^verbatim>\<open>for line in lines\<close>; the state is the list \<^verbatim>\<open>errors\<close>
  and \<^verbatim>\<open>current_error\<close>.
\<close>

definition parse_line ::
  "diagnostic list \<times> diagnostic option \<Rightarrow> string \<Rightarrow> diagnostic list \<times> diagnostic option"
where
  "parse_line st ln =
     (case re_match error_pattern ln of
        Some m \<Rightarrow>
          ((case snd st of Some e \<Rightarrow> fst st @ [e] | None \<Rightarrow> fst st),
           Some \<lparr>file_name = group m 1, line = int_of_digits (group m 2),
                 column = int_of_digits (group m 3), type = group m 4,
                 message = group m 5, suggestion = None\<rparr>)
      | None \<Rightarrow>
          (case snd st of
             None \<Rightarrow> st
           | Some e \<Rightarrow>
               if prefix ''Suggestion:'' (strip ln)
               then (fst st, Some (e\<lparr>suggestion := Some (strip (after_first ''Suggestion:'' ln))\<rparr>))
               else if strip ln \<noteq> [] \<and> \<not> prefix '' '' ln
               then (fst st, Some (e\<lparr>message := message e @ '' '' @ strip ln\<rparr>))
               else st))"

definition finish :: "diagnostic list \<times> diagnostic option \<Rightarrow> diagnostic list" where
  "finish st = (case snd st of Some e \<Rightarrow> fst st @ [e] | None \<Rightarrow> fst st)"

definition parse_lines :: "string list \<Rightarrow> diagnostic list" where
  "parse_lines lns = finish (foldl parse_line ([], None) lns)"

definition parse_errors :: "string \<Rightarrow> diagnostic list" where
  "parse_errors compiler_output = parse_lines (split_nl (strip compiler_output))"

section \<open>Single-shot feedback: one diagnostic per line number\<close>

text \<open>
  The first part of \<^verbatim>\<open>format_error_feedback\<close>: the loop that fills \<^verbatim>\<open>seen_lines\<close> and
  \<^verbatim>\<open>unique_errors\<close>, the cut to ten entries, and \<^verbatim>\<open>errors_text\<close>. The function goes on
  to put \<^verbatim>\<open>errors_text\<close> into a fixed prompt template.
\<close>

definition dedup_step :: "int set \<times> diagnostic list \<Rightarrow> diagnostic \<Rightarrow> int set \<times> diagnostic list"
where
  "dedup_step st e =
     (if line e \<notin> fst st then (insert (line e) (fst st), snd st @ [e]) else st)"

definition unique_errors :: "diagnostic list \<Rightarrow> diagnostic list" where
  "unique_errors errors = snd (foldl dedup_step ({}, []) errors)"

definition limited_errors :: "diagnostic list \<Rightarrow> diagnostic list" where
  "limited_errors errors = take 10 (unique_errors errors)"

text \<open>\<^verbatim>\<open>if e.get('suggestion')\<close>: present and not empty.\<close>

definition error_str :: "diagnostic \<Rightarrow> string" where
  "error_str e =
     ''- Line '' @ str_int (line e) @ '', Column '' @ str_int (column e)
       @ '': ['' @ type e @ ''] '' @ message e
       @ (case suggestion e of
            Some s \<Rightarrow> if s \<noteq> [] then [CHR 0x0A] @ ''  Suggestion: '' @ s else []
          | None \<Rightarrow> [])"

definition remainder_note :: "nat \<Rightarrow> string" where
  "remainder_note n =
     [CHR 0x0A] @ ''... and '' @ str_nat n @ '' more errors on other lines''"

definition errors_text :: "diagnostic list \<Rightarrow> string" where
  "errors_text errors =
     join [CHR 0x0A] (map error_str (limited_errors errors))
     @ (if length (unique_errors errors) > 10
        then remainder_note (length (unique_errors errors) - 10) else [])"

text \<open>
  The first diagnostic of each line number, in order; used to describe what
  \<^verbatim>\<open>unique_errors\<close> holds.
\<close>

fun first_per_line :: "diagnostic list \<Rightarrow> diagnostic list" where
  "first_per_line [] = []"
| "first_per_line (e # es) = e # first_per_line (filter (\<lambda>x. line x \<noteq> line e) es)"

section \<open>The agent loop\<close>

text \<open>
  \<^verbatim>\<open>agent_loop\<close> talks to the file system, to the vLLM server and to the compiler. What
  these answer is the input of the model: a record with one field per call the function
  makes. The replies of \<^verbatim>\<open>call_vllm\<close> and of \<^verbatim>\<open>subprocess.run\<close> may differ from one
  iteration to the next, so they depend on the iteration number as well as on what is
  sent. \<^verbatim>\<open>call_vllm\<close> returns \<^verbatim>\<open>None\<close> on every failure it handles, and the text of the
  reply otherwise. The text of the feedback message is computed by
  \<^verbatim>\<open>format_error_feedback_for_history\<close> from its four arguments; the loop only appends
  it to the conversation, and it is a field here so that the results hold for any
  wording. Printing and the optional debug files are left out.
\<close>

record message =
  role :: string
  content :: string

record world =
  read_system_prompt :: "string option"   \<comment> \<open>the text of the file, \<^verbatim>\<open>None\<close> when reading raises\<close>
  read_user_prompt :: "string option"
  check_vllm_health :: bool
  get_model_name :: string
  detect_reflexc_path :: "string option"
  call_vllm :: "int \<Rightarrow> message list \<Rightarrow> string option"
  subprocess_run :: "int \<Rightarrow> string \<Rightarrow> string \<Rightarrow> proc_result"
    \<comment> \<open>iteration, compiler path, text of the file checked\<close>
  format_error_feedback_for_history :: "string \<Rightarrow> diagnostic list \<Rightarrow> string \<Rightarrow> bool \<Rightarrow> string"

text \<open>
  The variables of the loop, the file at \<^verbatim>\<open>output_path\<close>, and two logs that the program
  does not keep but its claims speak about: the calls of \<^verbatim>\<open>call_vllm\<close> and of
  \<^verbatim>\<open>run_reflexc\<close>, each with the iteration in which it was made.
\<close>

record loop_state =
  current_code :: "string option"
  errors :: "diagnostic list"
  compiler_output :: string
  conversation_history :: "message list"
  output_file :: "string option"
  oracle_calls :: "(int \<times> message list) list"
  verifier_calls :: "(int \<times> string) list"

text \<open>The return statements of \<^verbatim>\<open>agent_loop\<close>, and the status each returns.\<close>

datatype exit =
    PromptLoadError      \<comment> \<open>\<^verbatim>\<open>Error loading system prompt\<close> or \<^verbatim>\<open>Error loading user prompt\<close>\<close>
  | VllmUnreachable      \<comment> \<open>\<^verbatim>\<open>Error: Cannot connect to vLLM server\<close>\<close>
  | ReflexcNotFound      \<comment> \<open>\<^verbatim>\<open>Error: Cannot find reflexc compiler\<close>\<close>
  | SuccessAfter int     \<comment> \<open>\<^verbatim>\<open>SUCCESS after n iteration(s)\<close>\<close>
  | FailedAfterMax       \<comment> \<open>\<^verbatim>\<open>FAILED after max_iterations iterations\<close>\<close>

fun exit_status :: "exit \<Rightarrow> int" where
  "exit_status (SuccessAfter n) = 0"
| "exit_status PromptLoadError = 1"
| "exit_status VllmUnreachable = 1"
| "exit_status ReflexcNotFound = 1"
| "exit_status FailedAfterMax = 1"

text \<open>The terminal outcomes of the specification, and the outcome each exit stands for.\<close>

datatype outcome = Success | ExhaustedIterations | FatalError

fun outcome_of :: "exit \<Rightarrow> outcome" where
  "outcome_of (SuccessAfter n) = Success"
| "outcome_of FailedAfterMax = ExhaustedIterations"
| "outcome_of PromptLoadError = FatalError"
| "outcome_of VllmUnreachable = FatalError"
| "outcome_of ReflexcNotFound = FatalError"

text \<open>Python's truth value of an optional text: neither \<^verbatim>\<open>None\<close> nor empty.\<close>

fun truthy :: "string option \<Rightarrow> bool" where
  "truthy None = False"
| "truthy (Some s) = (s \<noteq> [])"

text \<open>
  The part of the loop body from \<^verbatim>\<open>current_code = code\<close> on: write the file, compile,
  return on success, otherwise keep the compiler output and the parsed errors. The
  result is the exit when the body returns, and the state after the body.
\<close>

definition compile_step ::
  "world \<Rightarrow> string \<Rightarrow> int \<Rightarrow> string \<Rightarrow> loop_state \<Rightarrow> exit option \<times> loop_state"
where
  "compile_step w reflexc iteration code st =
     (let st1 = st\<lparr>current_code := Some code, output_file := Some code,
                    verifier_calls := verifier_calls st @ [(iteration, code)]\<rparr>;
          r = run_reflexc reflexc (subprocess_run w iteration reflexc code);
          st2 = st1\<lparr>compiler_output := snd r\<rparr>
      in if fst r then (Some (SuccessAfter iteration), st2)
         else (None, st2\<lparr>errors := parse_errors (snd r)\<rparr>))"

text \<open>
  The messages sent in an iteration: the two opening messages while there is no
  candidate yet, otherwise the conversation so far followed by the error feedback.
\<close>

definition messages_for ::
  "world \<Rightarrow> bool \<Rightarrow> string \<Rightarrow> string \<Rightarrow> loop_state \<Rightarrow> message list"
where
  "messages_for w simple_mode system_prompt user_prompt st =
     (case current_code st of
        None \<Rightarrow> [\<lparr>role = ''system'', content = system_prompt\<rparr>,
                  \<lparr>role = ''user'', content = user_prompt\<rparr>]
      | Some code \<Rightarrow>
          conversation_history st
          @ [\<lparr>role = ''user'',
               content = format_error_feedback_for_history w code (errors st)
                           (compiler_output st) simple_mode\<rparr>])"

text \<open>
  One pass of the body of \<^verbatim>\<open>for iteration in range(1, max_iterations + 1)\<close>; a result
  \<open>None\<close> for the exit is \<^verbatim>\<open>continue\<close> or the end of the body.
\<close>

definition iterate ::
  "world \<Rightarrow> bool \<Rightarrow> string \<Rightarrow> string \<Rightarrow> string \<Rightarrow> int \<Rightarrow> loop_state
     \<Rightarrow> exit option \<times> loop_state"
where
  "iterate w simple_mode system_prompt user_prompt reflexc iteration st =
     (let messages = messages_for w simple_mode system_prompt user_prompt st;
          response = call_vllm w iteration messages;
          st1 = st\<lparr>conversation_history := messages,
                    oracle_calls := oracle_calls st @ [(iteration, messages)]\<rparr>
      in if \<not> truthy response then (None, st1)
         else
           (let st2 = st1\<lparr>conversation_history :=
                             messages @ [\<lparr>role = ''assistant'', content = the response\<rparr>]\<rparr>;
                code = extract_code_from_response (the response)
            in if \<not> truthy code then
                 (case current_code st2 of
                    None \<Rightarrow> (None, st2)
                  | Some old \<Rightarrow> compile_step w reflexc iteration old st2)
               else compile_step w reflexc iteration (the code) st2))"

text \<open>The \<^verbatim>\<open>for\<close> loop: the iterations left, and the fall-through after the last.\<close>

fun run_loop ::
  "world \<Rightarrow> bool \<Rightarrow> string \<Rightarrow> string \<Rightarrow> string \<Rightarrow> int list \<Rightarrow> loop_state
     \<Rightarrow> exit \<times> loop_state"
where
  "run_loop w simple_mode system_prompt user_prompt reflexc [] st = (FailedAfterMax, st)"
| "run_loop w simple_mode system_prompt user_prompt reflexc (iteration # rest) st =
     (case iterate w simple_mode system_prompt user_prompt reflexc iteration st of
        (Some e, st') \<Rightarrow> (e, st')
      | (None, st') \<Rightarrow> run_loop w simple_mode system_prompt user_prompt reflexc rest st')"

definition initial_state :: loop_state where
  "initial_state =
     \<lparr>current_code = None, errors = [], compiler_output = [], conversation_history = [],
      output_file = None, oracle_calls = [], verifier_calls = []\<rparr>"

text \<open>The system prompt of simple mode is a constant of the program; only its use matters.\<close>

definition agent_loop ::
  "world \<Rightarrow> string \<Rightarrow> bool \<Rightarrow> int \<Rightarrow> exit \<times> loop_state"
where
  "agent_loop w simple_system_prompt simple_mode max_iterations =
     (let system_prompt =
            (if simple_mode then Some simple_system_prompt
             else map_option strip (read_system_prompt w))
      in case system_prompt of
           None \<Rightarrow> (PromptLoadError, initial_state)
         | Some system_prompt \<Rightarrow>
             (case map_option strip (read_user_prompt w) of
                None \<Rightarrow> (PromptLoadError, initial_state)
              | Some user_prompt \<Rightarrow>
                  if \<not> check_vllm_health w then (VllmUnreachable, initial_state)
                  else if \<not> truthy (detect_reflexc_path w) then (ReflexcNotFound, initial_state)
                  else run_loop w simple_mode system_prompt user_prompt
                         (the (detect_reflexc_path w)) [1..max_iterations] initial_state))"

section \<open>Sample sessions\<close>

text \<open>
  A session in which everything is in place: the prompts load, the server is healthy and
  the compiler is found. The reply and the compiler's behaviour are set per scenario.
\<close>

definition fenced_reply :: string where
  "fenced_reply = ''```reflexscript\<newline>reflex a { }\<newline>```''"

definition base_world :: world where
  "base_world =
     \<lparr>read_system_prompt = Some ''sys'', read_user_prompt = Some ''task'',
      check_vllm_health = True, get_model_name = ''m'',
      detect_reflexc_path = Some ''/bin/reflexc'',
      call_vllm = (\<lambda>i ms. Some fenced_reply),
      subprocess_run = (\<lambda>i p c. Completed 1 ''a.rfx:1:1: error: bad'' []),
      format_error_feedback_for_history = (\<lambda>code errs raw simple. raw)\<rparr>"

text \<open>The compiler cannot be started in iteration 1 and accepts the program in iteration 2.\<close>

definition missing_then_ok :: world where
  "missing_then_ok =
     base_world\<lparr>subprocess_run :=
       (\<lambda>i p c. if i = 1 then FileNotFoundError else Completed 0 [] [])\<rparr>"

text \<open>The second reply holds no program; the compiler rejects every program.\<close>

definition second_reply_prose :: world where
  "second_reply_prose =
     base_world\<lparr>call_vllm := (\<lambda>i ms. if i = 1 then Some fenced_reply else Some ''sorry'')\<rparr>"

text \<open>
  The second reply is missing; the compiler rejects the program in iteration 1 and would
  accept it from iteration 2 on.
\<close>

definition second_reply_missing :: world where
  "second_reply_missing =
     base_world\<lparr>call_vllm := (\<lambda>i ms. if i = 1 then Some fenced_reply else None),
                 subprocess_run :=
                   (\<lambda>i p c. if i = 1 then Completed 1 ''a.rfx:1:1: error: bad'' []
                             else Completed 0 [] [])\<rparr>"

text \<open>No compiler is found at the start.\<close>

definition no_compiler :: world where
  "no_compiler = base_world\<lparr>detect_reflexc_path := None\<rparr>"

section \<open>Facts about the text primitives\<close>

lemma contains_iff: "contains p s \<longleftrightarrow> (\<exists>a b. s = a @ p @ b)"
proof (induction s)
  case Nil
  then show ?case by auto
next
  case (Cons c cs)
  show ?case
  proof
    assume "contains p (c # cs)"
    then consider "prefix p (c # cs)" | "contains p cs" by auto
    then show "\<exists>a b. c # cs = a @ p @ b"
    proof cases
      case 1
      then obtain b where "c # cs = p @ b" by (auto simp: prefix_def)
      then have "c # cs = [] @ p @ b" by simp
      then show ?thesis by blast
    next
      case 2
      then obtain a b where "cs = a @ p @ b" using Cons.IH by blast
      then have "c # cs = (c # a) @ p @ b" by simp
      then show ?thesis by blast
    qed
  next
    assume "\<exists>a b. c # cs = a @ p @ b"
    then obtain a b where ab: "c # cs = a @ p @ b" by blast
    show "contains p (c # cs)"
    proof (cases a)
      case Nil
      with ab have "prefix p (c # cs)" by (simp add: prefix_def)
      then show ?thesis by simp
    next
      case (Cons x a')
      with ab have "cs = a' @ p @ b" by simp
      then have "contains p cs" using Cons.IH by blast
      then show ?thesis by simp
    qed
  qed
qed

lemma contains_append_left: "contains (p @ q) s \<Longrightarrow> contains p s"
proof -
  assume "contains (p @ q) s"
  then obtain a b where "s = a @ (p @ q) @ b" unfolding contains_iff by blast
  then have "s = a @ p @ (q @ b)" by simp
  then show ?thesis unfolding contains_iff by blast
qed

section \<open>The classifier is a partition of the non-blank lines\<close>

lemma fold_syntax:
  "syntax_errors (foldl categorize_line b ls) =
     syntax_errors b @ filter (\<lambda>l. strip l \<noteq> [] \<and> spec_category l = Syntax) ls"
  by (induction ls arbitrary: b) (simp_all add: categorize_line_def spec_category_def Let_def)

lemma fold_type:
  "type_errors (foldl categorize_line b ls) =
     type_errors b @ filter (\<lambda>l. strip l \<noteq> [] \<and> spec_category l = TypeOrSemantic) ls"
  by (induction ls arbitrary: b) (simp_all add: categorize_line_def spec_category_def Let_def)

lemma fold_linker:
  "linker_errors (foldl categorize_line b ls) =
     linker_errors b @ filter (\<lambda>l. strip l \<noteq> [] \<and> spec_category l = Linker) ls"
  by (induction ls arbitrary: b) (simp_all add: categorize_line_def spec_category_def Let_def)

lemma fold_warnings:
  "warnings (foldl categorize_line b ls) =
     warnings b @ filter (\<lambda>l. strip l \<noteq> [] \<and> spec_category l = Warning) ls"
  by (induction ls arbitrary: b) (simp_all add: categorize_line_def spec_category_def Let_def)

lemma fold_other:
  "other_messages (foldl categorize_line b ls) =
     other_messages b
     @ filter (\<lambda>l. strip l \<noteq> [] \<and> (spec_category l = Informational \<or> spec_category l = Other)) ls"
  by (induction ls arbitrary: b) (simp_all add: categorize_line_def spec_category_def Let_def)

lemma bucket_filters:
  "syntax_errors (parse_and_categorize_errors raw) = filter (\<lambda>l. spec_category l = Syntax) (non_blank_lines raw)"
  "type_errors (parse_and_categorize_errors raw) = filter (\<lambda>l. spec_category l = TypeOrSemantic) (non_blank_lines raw)"
  "linker_errors (parse_and_categorize_errors raw) = filter (\<lambda>l. spec_category l = Linker) (non_blank_lines raw)"
  "warnings (parse_and_categorize_errors raw) = filter (\<lambda>l. spec_category l = Warning) (non_blank_lines raw)"
  "other_messages (parse_and_categorize_errors raw) =
     filter (\<lambda>l. spec_category l = Informational \<or> spec_category l = Other) (non_blank_lines raw)"
  by (simp_all add: parse_and_categorize_errors_def non_blank_lines_def no_buckets_def
        fold_syntax fold_type fold_linker fold_warnings fold_other)

lemma section_of_entry:
  "s \<in> set (section_of h xs) \<Longrightarrow> e \<in> set (entries s) \<Longrightarrow> snd e \<in> set xs"
proof -
  assume s: "s \<in> set (section_of h xs)" and e: "e \<in> set (entries s)"
  from s have "entries s = enumerate 1 (take 10 xs)"
    by (auto simp: section_of_def split: if_splits)
  with e have "snd e \<in> set (map snd (enumerate 1 (take 10 xs)))"
    by (metis image_eqI set_map)
  then have "snd e \<in> set (take 10 xs)" by (simp only: map_snd_enumerate)
  then show "snd e \<in> set xs" by (rule in_set_takeD)
qed

lemma informational_iff:
  "spec_category l = Informational \<longleftrightarrow> any_in informational_patterns (lower l)"
  by (simp add: spec_category_def Let_def)

lemma rich_entry_category:
  assumes "s \<in> set (rich_sections raw)" and "e \<in> set (entries s)"
  shows "spec_category (snd e) \<in> {Syntax, TypeOrSemantic, Linker, Warning}"
proof -
  let ?b = "parse_and_categorize_errors raw"
  from assms(1) consider "s \<in> set (section_of ''SYNTAX ERRORS'' (syntax_errors ?b))"
    | "s \<in> set (section_of ''TYPE/DECLARATION ERRORS'' (type_errors ?b))"
    | "s \<in> set (section_of ''LINKER ERRORS'' (linker_errors ?b))"
    | "s \<in> set (section_of ''WARNINGS'' (warnings ?b))"
    by (auto simp: rich_sections_def Let_def)
  then show ?thesis
  proof cases
    case 1
    from section_of_entry[OF 1 assms(2)] show ?thesis by (simp add: bucket_filters)
  next
    case 2
    from section_of_entry[OF 2 assms(2)] show ?thesis by (simp add: bucket_filters)
  next
    case 3
    from section_of_entry[OF 3 assms(2)] show ?thesis by (simp add: bucket_filters)
  next
    case 4
    from section_of_entry[OF 4 assms(2)] show ?thesis by (simp add: bucket_filters)
  qed
qed


lemma undefined_reference_split: "''undefined reference'' = ''undefined'' @ '' reference''"
  by simp

lemma undefined_reference_is_type_marker:
  "contains ''undefined reference'' s \<Longrightarrow> any_in type_patterns s"
proof -
  assume "contains ''undefined reference'' s"
  then have "contains ''undefined'' s"
    unfolding undefined_reference_split by (rule contains_append_left)
  then show ?thesis by (simp add: any_in_def type_patterns_def)
qed

section \<open>Claims about the classifier\<close>

text \<open>
  C4. For any raw verifier output, \<^verbatim>\<open>parse_and_categorize_errors\<close> puts every non-blank
  line in exactly one of its five lists, chosen by the first category whose markers the
  line holds, and keeps the input order inside each list: each list is the non-blank
  lines of that category, in order (informational lines and the remaining lines both go
  to \<^verbatim>\<open>other_messages\<close>). No entry of a category-grouped section of the rich report
  holds an informational marker.
\<close>

theorem classifier_partition:
  "syntax_errors (parse_and_categorize_errors raw)
     = filter (\<lambda>l. spec_category l = Syntax) (non_blank_lines raw)
   \<and> type_errors (parse_and_categorize_errors raw)
     = filter (\<lambda>l. spec_category l = TypeOrSemantic) (non_blank_lines raw)
   \<and> linker_errors (parse_and_categorize_errors raw)
     = filter (\<lambda>l. spec_category l = Linker) (non_blank_lines raw)
   \<and> warnings (parse_and_categorize_errors raw)
     = filter (\<lambda>l. spec_category l = Warning) (non_blank_lines raw)
   \<and> other_messages (parse_and_categorize_errors raw)
     = filter (\<lambda>l. spec_category l = Informational \<or> spec_category l = Other)
         (non_blank_lines raw)
   \<and> (\<forall>s \<in> set (rich_sections raw). \<forall>e \<in> set (entries s).
         \<not> any_in informational_patterns (lower (snd e)))"
proof -
  have "\<forall>s \<in> set (rich_sections raw). \<forall>e \<in> set (entries s).
         \<not> any_in informational_patterns (lower (snd e))"
  proof (intro ballI)
    fix s e assume "s \<in> set (rich_sections raw)" "e \<in> set (entries s)"
    then have "spec_category (snd e) \<noteq> Informational"
      using rich_entry_category by fastforce
    then show "\<not> any_in informational_patterns (lower (snd e))"
      by (simp add: informational_iff)
  qed
  then show ?thesis by (simp add: bucket_filters)
qed


theorem classifier_partition_witness:
  "rich_sections ''x.c:1:2: error: missing ;\<newline>  Estimated WCET: 5''
     = [\<lparr>heading = ''SYNTAX ERRORS'', total = 1,
          entries = [(1, ''x.c:1:2: error: missing ;'')], omitted = None\<rparr>]
   \<and> other_messages (parse_and_categorize_errors
         ''x.c:1:2: error: missing ;\<newline>  Estimated WCET: 5'') = [''  Estimated WCET: 5'']
   \<and> \<not> any_in informational_patterns (lower ''x.c:1:2: error: missing ;'')"
proof -
  let ?raw = "''x.c:1:2: error: missing ;\<newline>  Estimated WCET: 5''"
  have sections: "rich_sections ?raw
     = [\<lparr>heading = ''SYNTAX ERRORS'', total = 1,
          entries = [(1, ''x.c:1:2: error: missing ;'')], omitted = None\<rparr>]"
    by code_simp
  have other: "other_messages (parse_and_categorize_errors ?raw) = [''  Estimated WCET: 5'']"
    by code_simp
  from classifier_partition [of ?raw]
  have "\<forall>s \<in> set (rich_sections ?raw). \<forall>e \<in> set (entries s).
          \<not> any_in informational_patterns (lower (snd e))"
    by (elim conjE)
  then have "\<not> any_in informational_patterns (lower ''x.c:1:2: error: missing ;'')"
    unfolding sections by simp
  with sections other show ?thesis by (intro conjI)
qed

text \<open>
  C10 (as amended). No line whose lower-cased text holds \<^verbatim>\<open>undefined reference\<close> is ever
  put in \<^verbatim>\<open>linker_errors\<close>: such a line holds the type marker \<^verbatim>\<open>undefined\<close>, which is
  tried before the linker markers. Every line of \<^verbatim>\<open>linker_errors\<close> holds one of
  \<^verbatim>\<open>ld:\<close>, \<^verbatim>\<open>cannot find -l\<close>, \<^verbatim>\<open>unresolved symbol\<close>, \<^verbatim>\<open>linker error\<close>, \<^verbatim>\<open>link error\<close>
  and no informational, syntax or type marker.
\<close>

theorem linker_bucket_contents:
  "\<forall>l \<in> set (linker_errors (parse_and_categorize_errors raw)).
      \<not> contains ''undefined reference'' (lower l)
    \<and> any_in [''ld:'', ''cannot find -l'', ''unresolved symbol'', ''linker error'',
              ''link error''] (lower l)
    \<and> \<not> any_in informational_patterns (lower l)
    \<and> \<not> any_in syntax_patterns (lower l)
    \<and> \<not> any_in type_patterns (lower l)"
proof
  fix l assume "l \<in> set (linker_errors (parse_and_categorize_errors raw))"
  then have cat: "spec_category l = Linker" by (simp add: bucket_filters)
  have free_info: "\<not> any_in informational_patterns (lower l)"
    using cat by (auto simp: spec_category_def Let_def split: if_splits)
  have free_syntax: "\<not> any_in syntax_patterns (lower l)"
    using cat by (auto simp: spec_category_def Let_def split: if_splits)
  have free_type: "\<not> any_in type_patterns (lower l)"
    using cat by (auto simp: spec_category_def Let_def split: if_splits)
  have link: "any_in linker_patterns (lower l)"
    using cat by (auto simp: spec_category_def Let_def split: if_splits)
  have free_undef: "\<not> contains ''undefined reference'' (lower l)"
    using free_type undefined_reference_is_type_marker by blast
  from link free_undef
  have "any_in [''ld:'', ''cannot find -l'', ''unresolved symbol'', ''linker error'',
                ''link error''] (lower l)"
    by (simp add: any_in_def linker_patterns_def)
  with free_undef free_info free_syntax free_type
  show "\<not> contains ''undefined reference'' (lower l)
    \<and> any_in [''ld:'', ''cannot find -l'', ''unresolved symbol'', ''linker error'',
              ''link error''] (lower l)
    \<and> \<not> any_in informational_patterns (lower l)
    \<and> \<not> any_in syntax_patterns (lower l)
    \<and> \<not> any_in type_patterns (lower l)"
    by (intro conjI)
qed

theorem linker_bucket_contents_witness:
  "linker_errors (parse_and_categorize_errors ''/usr/bin/ld: cannot find -lfoo'')
     = [''/usr/bin/ld: cannot find -lfoo'']
   \<and> \<not> contains ''undefined reference'' (lower ''/usr/bin/ld: cannot find -lfoo'')
   \<and> \<not> any_in type_patterns (lower ''/usr/bin/ld: cannot find -lfoo'')"
proof -
  let ?raw = "''/usr/bin/ld: cannot find -lfoo''"
  have bucket: "linker_errors (parse_and_categorize_errors ?raw) = [?raw]"
    by code_simp
  from linker_bucket_contents [of ?raw]
  have "\<not> contains ''undefined reference'' (lower ?raw)
        \<and> \<not> any_in type_patterns (lower ?raw)"
    unfolding bucket by simp
  with bucket show ?thesis by simp
qed

text \<open>
  The claim as first stated leaves \<^verbatim>\<open>unresolved symbol\<close> out of the markers that can
  bring a line into \<^verbatim>\<open>linker_errors\<close>; this line is put there by that marker alone.
\<close>

theorem linker_bucket_unresolved_symbol:
  "linker_errors (parse_and_categorize_errors ''unresolved symbol foo'')
     = [''unresolved symbol foo'']
   \<and> \<not> any_in [''ld:'', ''cannot find -l'', ''linker error'', ''link error'']
         (lower ''unresolved symbol foo'')"
  by code_simp

section \<open>Facts about the loop\<close>

lemma compile_step_oracle_calls [simp]:
  "oracle_calls (snd (compile_step w reflexc it code st)) = oracle_calls st"
  by (simp add: compile_step_def Let_def)

lemma iterate_oracle_calls:
  "oracle_calls (snd (iterate w sm sp up reflexc it st))
     = oracle_calls st @ [(it, messages_for w sm sp up st)]"
  by (simp add: iterate_def Let_def split: option.splits)

lemma iterate_exit:
  "fst (iterate w sm sp up reflexc it st) = Some e \<Longrightarrow> e = SuccessAfter it"
  by (auto simp: iterate_def compile_step_def Let_def split: option.splits if_splits)

lemma run_loop_calls:
  "\<exists>k \<le> length its.
      map fst (oracle_calls (snd (run_loop w sm sp up reflexc its st)))
        = map fst (oracle_calls st) @ take k its
    \<and> (fst (run_loop w sm sp up reflexc its st) = FailedAfterMax \<and> k = length its
       \<or> 0 < k \<and> fst (run_loop w sm sp up reflexc its st) = SuccessAfter (its ! (k - 1)))"
proof (induction its arbitrary: st)
  case Nil
  then show ?case by simp
next
  case (Cons it its)
  obtain r st' where it: "iterate w sm sp up reflexc it st = (r, st')"
    by (cases "iterate w sm sp up reflexc it st")
  have calls: "map fst (oracle_calls st') = map fst (oracle_calls st) @ [it]"
    using iterate_oracle_calls [of w sm sp up reflexc it st] it by simp
  show ?case
  proof (cases r)
    case None
    from Cons.IH [of st'] obtain k where k: "k \<le> length its"
      "map fst (oracle_calls (snd (run_loop w sm sp up reflexc its st')))
         = map fst (oracle_calls st') @ take k its"
      "fst (run_loop w sm sp up reflexc its st') = FailedAfterMax \<and> k = length its
       \<or> 0 < k \<and> fst (run_loop w sm sp up reflexc its st') = SuccessAfter (its ! (k - 1))"
      by blast
    have "Suc k \<le> length (it # its)" using k(1) by simp
    moreover have "map fst (oracle_calls (snd (run_loop w sm sp up reflexc (it # its) st)))
        = map fst (oracle_calls st) @ take (Suc k) (it # its)"
      using it None k(2) calls by simp
    moreover have "fst (run_loop w sm sp up reflexc (it # its) st) = FailedAfterMax
          \<and> Suc k = length (it # its)
       \<or> 0 < Suc k \<and> fst (run_loop w sm sp up reflexc (it # its) st)
            = SuccessAfter ((it # its) ! (Suc k - 1))"
      using it None k(3) by (cases k) auto
    ultimately show ?thesis by blast
  next
    case (Some e)
    then have e: "e = SuccessAfter it" using iterate_exit [of w sm sp up reflexc it st] it by simp
    have "Suc 0 \<le> length (it # its)" by simp
    moreover have "map fst (oracle_calls (snd (run_loop w sm sp up reflexc (it # its) st)))
        = map fst (oracle_calls st) @ take (Suc 0) (it # its)"
      using it Some calls by simp
    moreover have "0 < Suc 0 \<and> fst (run_loop w sm sp up reflexc (it # its) st)
            = SuccessAfter ((it # its) ! (Suc 0 - 1))"
      using it Some e by simp
    ultimately show ?thesis by blast
  qed
qed

lemma take_upto_1: "k \<le> nat n \<Longrightarrow> take k [1..n] = [1..int k]"
proof (rule nth_equalityI)
  assume k: "k \<le> nat n"
  show "length (take k [1..n]) = length [1..int k]" using k by simp
  fix i assume "i < length (take k [1..n])"
  then have i: "i < k" by simp
  then show "take k [1..n] ! i = [1..int k] ! i" using k by simp
qed

lemma agent_loop_calls:
  "\<exists>k \<le> nat n.
      map fst (oracle_calls (snd (agent_loop w ssp sm n))) = [1..int k]
    \<and> (fst (agent_loop w ssp sm n) \<in> {PromptLoadError, VllmUnreachable, ReflexcNotFound} \<and> k = 0
       \<or> fst (agent_loop w ssp sm n) = FailedAfterMax \<and> k = nat n
       \<or> 0 < k \<and> fst (agent_loop w ssp sm n) = SuccessAfter (int k))"
proof -
  let ?R = "agent_loop w ssp sm n"
  have start: "(fst ?R \<in> {PromptLoadError, VllmUnreachable, ReflexcNotFound} \<and> snd ?R = initial_state)
    \<or> (\<exists>sp up rc. ?R = run_loop w sm sp up rc [1..n] initial_state)"
    by (auto simp: agent_loop_def Let_def split: option.splits)
  from start show ?thesis
  proof
    assume "fst ?R \<in> {PromptLoadError, VllmUnreachable, ReflexcNotFound} \<and> snd ?R = initial_state"
    then have "0 \<le> nat n \<and> map fst (oracle_calls (snd ?R)) = [1..int 0]
       \<and> (fst ?R \<in> {PromptLoadError, VllmUnreachable, ReflexcNotFound} \<and> (0::nat) = 0)"
      by (simp add: initial_state_def)
    then show ?thesis by blast
  next
    assume "\<exists>sp up rc. ?R = run_loop w sm sp up rc [1..n] initial_state"
    then obtain sp up rc where R: "?R = run_loop w sm sp up rc [1..n] initial_state" by blast
    from run_loop_calls [of "[1..n]" w sm sp up rc initial_state]
    obtain k where k: "k \<le> length [1..n]"
      "map fst (oracle_calls (snd ?R)) = map fst (oracle_calls initial_state) @ take k [1..n]"
      "fst ?R = FailedAfterMax \<and> k = length [1..n]
        \<or> 0 < k \<and> fst ?R = SuccessAfter ([1..n] ! (k - 1))"
      unfolding R by blast
    have kn: "k \<le> nat n" using k(1) by simp
    have calls: "map fst (oracle_calls (snd ?R)) = [1..int k]"
      using k(2) take_upto_1 [OF kn] by (simp add: initial_state_def)
    have "fst ?R = FailedAfterMax \<and> k = nat n \<or> 0 < k \<and> fst ?R = SuccessAfter (int k)"
    proof -
      from k(3) show ?thesis
      proof
        assume "fst ?R = FailedAfterMax \<and> k = length [1..n]"
        then show ?thesis by simp
      next
        assume s: "0 < k \<and> fst ?R = SuccessAfter ([1..n] ! (k - 1))"
        then have "1 + int (k - 1) \<le> n" using kn by linarith
        then have "[1..n] ! (k - 1) = 1 + int (k - 1)" by (rule nth_upto)
        then have "[1..n] ! (k - 1) = int k" using s by simp
        with s show ?thesis by simp
      qed
    qed
    with kn calls show ?thesis by blast
  qed
qed

section \<open>Claims about the loop\<close>

text \<open>
  C1. For every \<open>max_iterations\<close> of at least 1, whatever the server and the compiler
  answer (replies may be missing or empty, and replies may hold no program),
  \<^verbatim>\<open>agent_loop\<close> returns after at most \<open>max_iterations\<close> calls of \<^verbatim>\<open>call_vllm\<close>, made in
  iterations 1, 2, ... in this order, with one of the outcomes Success,
  ExhaustedIterations and FatalError. A session that ends exhausted has made exactly
  \<open>max_iterations\<close> calls, one that succeeds in iteration \<open>n\<close> exactly \<open>n\<close>.
\<close>

theorem agent_loop_within_budget:
  assumes "1 \<le> max_iterations"
  shows "int (length (oracle_calls (snd (agent_loop w ssp sm max_iterations)))) \<le> max_iterations
    \<and> map fst (oracle_calls (snd (agent_loop w ssp sm max_iterations)))
        = [1..int (length (oracle_calls (snd (agent_loop w ssp sm max_iterations))))]
    \<and> outcome_of (fst (agent_loop w ssp sm max_iterations))
        \<in> {Success, ExhaustedIterations, FatalError}
    \<and> (fst (agent_loop w ssp sm max_iterations) = FailedAfterMax
        \<longrightarrow> int (length (oracle_calls (snd (agent_loop w ssp sm max_iterations)))) = max_iterations)
    \<and> (\<forall>n. fst (agent_loop w ssp sm max_iterations) = SuccessAfter n
        \<longrightarrow> n = int (length (oracle_calls (snd (agent_loop w ssp sm max_iterations)))))"
proof -
  let ?R = "agent_loop w ssp sm max_iterations"
  from agent_loop_calls [of max_iterations w ssp sm]
  obtain k where k: "k \<le> nat max_iterations"
    "map fst (oracle_calls (snd ?R)) = [1..int k]"
    "fst ?R \<in> {PromptLoadError, VllmUnreachable, ReflexcNotFound} \<and> k = 0
       \<or> fst ?R = FailedAfterMax \<and> k = nat max_iterations
       \<or> 0 < k \<and> fst ?R = SuccessAfter (int k)"
    by blast
  have "length (map fst (oracle_calls (snd ?R))) = length [1..int k]" using k(2) by simp
  then have len: "length (oracle_calls (snd ?R)) = k" by simp
  have a: "int (length (oracle_calls (snd ?R))) \<le> max_iterations" using len k(1) assms by simp
  have b: "map fst (oracle_calls (snd ?R)) = [1..int (length (oracle_calls (snd ?R)))]"
    using k(2) len by simp
  have c: "outcome_of (fst ?R) \<in> {Success, ExhaustedIterations, FatalError}"
    by (cases "outcome_of (fst ?R)") simp_all
  have d: "fst ?R = FailedAfterMax \<longrightarrow> int (length (oracle_calls (snd ?R))) = max_iterations"
    using k(3) len assms by auto
  have e: "\<forall>n. fst ?R = SuccessAfter n \<longrightarrow> n = int (length (oracle_calls (snd ?R)))"
    using k(3) len by auto
  from a b c d e show ?thesis by blast
qed


theorem agent_loop_within_budget_witness:
  "(1::int) \<le> 2
   \<and> fst (agent_loop missing_then_ok ''simple'' False 2) = SuccessAfter 2
   \<and> int (length (oracle_calls (snd (agent_loop missing_then_ok ''simple'' False 2)))) = 2"
proof -
  have h: "(1::int) \<le> 2" by simp
  have run: "fst (agent_loop missing_then_ok ''simple'' False 2) = SuccessAfter 2"
    by code_simp
  from agent_loop_within_budget [OF h, of missing_then_ok "''simple''" False]
  have "\<forall>n. fst (agent_loop missing_then_ok ''simple'' False 2) = SuccessAfter n
     \<longrightarrow> n = int (length (oracle_calls (snd (agent_loop missing_then_ok ''simple'' False 2))))"
    by (elim conjE)
  with run have "int (length (oracle_calls (snd (agent_loop missing_then_ok ''simple'' False 2)))) = 2"
    by simp
  with h run show ?thesis by (intro conjI)
qed

end
